theory Spec2Isabelle
  imports Main
begin

section \<open>Token trees\<close>

text \<open>
  Modelled from the spec: the token declarations of the lexer package (\<open>IToken\<close>,
  \<open>ITagToken\<close>, \<open>TagTypes\<close>) are imported by \<open>src/utils/index.ts\<close> and not part of it.
  A token has a type, a source location and type-specific properties; a tag token
  (type \<open>TagTypes.TAG\<close> or \<open>TagTypes.ETAG\<close>) has \<open>properties.name\<close>, \<open>properties.jsArg\<close>
  (the raw argument text) and an ordered list of children.
\<close>

record position =
  line :: nat
  column :: nat

record location = position +
  filename :: string

datatype tagTypes = TAG | ETAG

datatype plainTypes = TEXT | MUSTACHE | COMMENT

datatype token =
    TagToken tagTypes location string string "token list"
  | PlainToken plainTypes location string

text \<open>The source reads \<open>jsArg\<close> and \<open>children\<close> of tag tokens only.\<close>

fun jsArg :: "token \<Rightarrow> string" where
  "jsArg (TagToken ty l n a cs) = a"
| "jsArg (PlainToken ty l v) = []"

fun children :: "token \<Rightarrow> token list" where
  "children (TagToken ty l n a cs) = cs"
| "children (PlainToken ty l v) = []"

text \<open>The assignment \<open>token.children = cs\<close>.\<close>

fun setChildren :: "token \<Rightarrow> token list \<Rightarrow> token" where
  "setChildren (TagToken ty l n a old) cs = TagToken ty l n a cs"
| "setChildren (PlainToken ty l v) cs = PlainToken ty l v"

section \<open>Primitives of the host language\<close>

text \<open>
  \<open>String.prototype.trim\<close>: strips white space and line terminators from both ends.
  Strings are lists of 8-bit characters here (the code units below 256), and the ones
  that \<open>trim\<close> strips are tab, line feed, vertical tab, form feed, carriage return,
  space and the no-break space \<open>0xA0\<close>.
\<close>

definition isWhiteSpace :: "char \<Rightarrow> bool" where
  "isWhiteSpace c = (c = CHR 0x09 \<or> c = CHR 0x0A \<or> c = CHR 0x0B \<or> c = CHR 0x0C
     \<or> c = CHR 0x0D \<or> c = CHR '' '' \<or> c = CHR 0xA0)"

definition trim :: "string \<Rightarrow> string" where
  "trim s = rev (dropWhile isWhiteSpace (rev (dropWhile isWhiteSpace s)))"

text \<open>
  Errors: \<open>EdgeError message code line col filename\<close> is raised by the source;
  \<open>TypeError\<close> is what reading a property of an undefined value raises.
\<close>

datatype error =
    EdgeError string string nat nat string
  | TypeError

section \<open>Section merging\<close>

text \<open>\<open>isBlock\<close>: the token is a tag (or escaped tag) with the given name.\<close>

fun isBlock :: "token \<Rightarrow> string \<Rightarrow> bool" where
  "isBlock (TagToken ty l n a cs) name = (n = name)"
| "isBlock (PlainToken ty l v) name = False"

text \<open>
  \<open>hasChildSuper\<close>: the first child of a tag token is a \<open>super\<close> tag. The parameter
  type \<open>ITagToken\<close> of the source excludes plain tokens; they have no children here.
\<close>

definition hasChildSuper :: "token \<Rightarrow> bool" where
  "hasChildSuper tok =
     (case children tok of [] \<Rightarrow> False | c # cs \<Rightarrow> isBlock c ''super'')"

text \<open>
  The table \<open>extendedSections\<close> is a plain object (\<open>{}\<close>) used as a dictionary from trimmed
  section identifiers to the section tokens of the extended list. A plain object has a
  prototype, at first \<open>Object.prototype\<close>, and reading a key it does not own goes on in
  the prototype.

  \<^item> The assignment \<open>sections[key] = node\<close> stores \<open>node\<close> under \<open>key\<close> as a property of the
    table's own, over any earlier one, for every key but \<open>__proto__\<close>: that assignment
    makes \<open>node\<close> the prototype of the table instead, over any earlier one.
  \<^item> Reading \<open>sections[key]\<close> gives the own property if there is one; for the key
    \<open>__proto__\<close> it gives the prototype; otherwise it gives the member \<open>key\<close> of the
    prototype: of the token that was made the prototype, if any and if it has such a
    member, else of \<open>Object.prototype\<close>.

  So the table is a finite map from keys to tokens in which the entry of \<open>__proto__\<close>,
  if any, is the token that is the prototype, and a read that finds no entry looks at
  the inherited members. The names of the members of \<open>Object.prototype\<close> are listed;
  all of them are functions or objects, hence truthy.
\<close>

type_synonym sections = "string \<rightharpoonup> token"

definition objectPrototypeMembers :: "string list" where
  "objectPrototypeMembers =
     [''constructor'', ''__defineGetter__'', ''__defineSetter__'', ''hasOwnProperty'',
      ''__lookupGetter__'', ''__lookupSetter__'', ''isPrototypeOf'', ''propertyIsEnumerable'',
      ''toString'', ''valueOf'', ''__proto__'', ''toLocaleString'']"

text \<open>
  The members of a token object are declared by the lexer package and not under
  \<open>src/\<close>, so they are a parameter: \<open>members t key\<close> tells whether the object of token \<open>t\<close>
  has a member \<open>key\<close> and whether its value is truthy. (The source reads \<open>type\<close>,
  \<open>properties\<close> and \<open>children\<close>: a string, an object and an array, all truthy.) No
  member of a token object is itself a tag token.
\<close>

datatype member = NoMember | FalsyMember | TruthyMember

definition inherited :: "(token \<Rightarrow> string \<Rightarrow> member) \<Rightarrow> sections \<Rightarrow> string \<Rightarrow> member" where
  "inherited members sections key =
     (case (case sections ''__proto__'' of None \<Rightarrow> NoMember | Some t \<Rightarrow> members t key) of
        NoMember \<Rightarrow> if key \<in> set objectPrototypeMembers then TruthyMember else NoMember
      | FalsyMember \<Rightarrow> FalsyMember
      | TruthyMember \<Rightarrow> TruthyMember)"

text \<open>What \<open>sections[key]\<close> gives: a stored section token, or an inherited member.\<close>

datatype found = Stored token | Inherited member

definition lookup :: "(token \<Rightarrow> string \<Rightarrow> member) \<Rightarrow> sections \<Rightarrow> string \<Rightarrow> found" where
  "lookup members sections key =
     (case sections key of
        Some node \<Rightarrow> Stored node
      | None \<Rightarrow> Inherited (inherited members sections key))"

definition extendedSections :: "token list \<Rightarrow> sections" where
  "extendedSections extended =
     foldl (\<lambda>sections node. sections(trim (jsArg node) \<mapsto> node)) Map.empty
       (filter (\<lambda>node. isBlock node ''section'') extended)"

definition extendedSetCalls :: "token list \<Rightarrow> token list" where
  "extendedSetCalls extended = filter (\<lambda>node. isBlock node ''set'') extended"

text \<open>
  The callback of \<open>base.map\<close> returns either the base node itself or the object read
  from the table, and in the second case it may first assign to that object's
  \<open>children\<close>. The object is shared: a later base section with the same identifier reads
  the children written for an earlier one, and every place of the result that holds the
  object shows its final children. So the table is threaded through the traversal as a
  store, a place of the result is either a node or a reference into the store, and the
  references are read when the traversal is over (a reference always resolves: its
  key is in the store, and no key is ever removed). The two token lists are separate
  trees (two runs of the lexer): no object of \<open>base\<close> is an object of \<open>extended\<close>.

  A read that gives a falsy value (undefined included) keeps the base node. A read that
  gives a truthy inherited member passes it to \<open>hasChildSuper\<close>, which reads the \<open>length\<close>
  of its \<open>children\<close>: there are none, and the call raises \<open>TypeError\<close>.
\<close>

datatype slot = Node token | ExtendedNode string

definition mapNode ::
  "(token \<Rightarrow> string \<Rightarrow> member) \<Rightarrow> sections \<Rightarrow> token \<Rightarrow> error + slot \<times> sections" where
  "mapNode members sections node =
     (if \<not> isBlock node ''section'' then Inr (Node node, sections)
      else case lookup members sections (trim (jsArg node)) of
        Inherited TruthyMember \<Rightarrow> Inl TypeError
      | Inherited falsy \<Rightarrow> Inr (Node node, sections)
      | Stored extendedNode \<Rightarrow>
          Inr (ExtendedNode (trim (jsArg node)),
               if hasChildSuper extendedNode
               then sections(trim (jsArg node) \<mapsto>
                      setChildren extendedNode (children node @ children extendedNode))
               else sections))"

fun mapNodes ::
  "(token \<Rightarrow> string \<Rightarrow> member) \<Rightarrow> sections \<Rightarrow> token list \<Rightarrow> error + slot list \<times> sections" where
  "mapNodes members sections [] = Inr ([], sections)"
| "mapNodes members sections (node # base) =
     (case mapNode members sections node of
        Inl err \<Rightarrow> Inl err
      | Inr (s, sections') \<Rightarrow>
          (case mapNodes members sections' base of
             Inl err \<Rightarrow> Inl err
           | Inr (ss, sections'') \<Rightarrow> Inr (s # ss, sections'')))"

fun deref :: "sections \<Rightarrow> slot \<Rightarrow> token" where
  "deref sections (Node node) = node"
| "deref sections (ExtendedNode k) = the (sections k)"

definition finalNodes ::
  "(token \<Rightarrow> string \<Rightarrow> member) \<Rightarrow> token list \<Rightarrow> token list \<Rightarrow> error + token list" where
  "finalNodes members base extended =
     (case mapNodes members (extendedSections extended) base of
        Inl err \<Rightarrow> Inl err
      | Inr (slots, sections') \<Rightarrow> Inr (map (deref sections') slots))"

definition mergeSections ::
  "(token \<Rightarrow> string \<Rightarrow> member) \<Rightarrow> token list \<Rightarrow> token list \<Rightarrow> error + token list" where
  "mergeSections members base extended =
     (case finalNodes members base extended of
        Inl err \<Rightarrow> Inl err
      | Inr nodes \<Rightarrow> Inr (extendedSetCalls extended @ nodes))"

text \<open>
  For the proofs: the traversal with every failing read replaced by keeping the base
  node, and the condition under which the traversal fails. The traversal of the source
  is the first where the second is false, and \<open>TypeError\<close> where it is true.
\<close>

definition passNode :: "sections \<Rightarrow> token \<Rightarrow> slot \<times> sections" where
  "passNode sections node =
     (if \<not> isBlock node ''section'' then (Node node, sections)
      else case sections (trim (jsArg node)) of
        None \<Rightarrow> (Node node, sections)
      | Some extendedNode \<Rightarrow>
          (ExtendedNode (trim (jsArg node)),
           if hasChildSuper extendedNode
           then sections(trim (jsArg node) \<mapsto>
                  setChildren extendedNode (children node @ children extendedNode))
           else sections))"

fun passNodes :: "sections \<Rightarrow> token list \<Rightarrow> slot list \<times> sections" where
  "passNodes sections [] = ([], sections)"
| "passNodes sections (node # base) =
     (case passNode sections node of (s, sections') \<Rightarrow>
        (case passNodes sections' base of (ss, sections'') \<Rightarrow> (s # ss, sections'')))"

definition passFinal :: "token list \<Rightarrow> token list \<Rightarrow> token list" where
  "passFinal base extended =
     (case passNodes (extendedSections extended) base of
        (slots, sections') \<Rightarrow> map (deref sections') slots)"

definition nodeFails :: "(token \<Rightarrow> string \<Rightarrow> member) \<Rightarrow> sections \<Rightarrow> token \<Rightarrow> bool" where
  "nodeFails members sections node =
     (isBlock node ''section'' \<and> sections (trim (jsArg node)) = None
      \<and> inherited members sections (trim (jsArg node)) = TruthyMember)"

fun fails :: "(token \<Rightarrow> string \<Rightarrow> member) \<Rightarrow> sections \<Rightarrow> token list \<Rightarrow> bool" where
  "fails members sections [] = False"
| "fails members sections (node # base) =
     (nodeFails members sections node
      \<or> fails members (snd (passNode sections node)) base)"


section \<open>Expressions and the expression compiler\<close>

text \<open>
  Modelled from the spec: the expression nodes come from the parser package and are
  typed \<open>any\<close> in the source. They are a tagged union keyed by the node type, each node
  with the start position of its source location (\<open>loc.start\<close>). The source reads \<open>raw\<close>
  of a literal, \<open>name\<close> of an identifier, \<open>expressions\<close> of a sequence, \<open>properties\<close> (each
  with \<open>key\<close> and \<open>value\<close>) of an object literal, \<open>left\<close> and \<open>right\<close> of an assignment;
  all other node types are kept with their source text.
\<close>

record loc =
  start :: position

datatype otherType =
    ArrayExpression | ArrowFunctionExpression | BinaryExpression | CallExpression
  | ConditionalExpression | FunctionExpression | LogicalExpression | MemberExpression
  | NewExpression | TemplateLiteral | ThisExpression | UnaryExpression | UpdateExpression

datatype expr =
    Literal loc string
  | Identifier loc string
  | SequenceExpression loc "expr list"
  | ObjectExpression loc "(expr \<times> expr) list"
  | AssignmentExpression loc expr expr
  | OtherExpression otherType loc string

fun otherTypeName :: "otherType \<Rightarrow> string" where
  "otherTypeName ArrayExpression = ''ArrayExpression''"
| "otherTypeName ArrowFunctionExpression = ''ArrowFunctionExpression''"
| "otherTypeName BinaryExpression = ''BinaryExpression''"
| "otherTypeName CallExpression = ''CallExpression''"
| "otherTypeName ConditionalExpression = ''ConditionalExpression''"
| "otherTypeName FunctionExpression = ''FunctionExpression''"
| "otherTypeName LogicalExpression = ''LogicalExpression''"
| "otherTypeName MemberExpression = ''MemberExpression''"
| "otherTypeName NewExpression = ''NewExpression''"
| "otherTypeName TemplateLiteral = ''TemplateLiteral''"
| "otherTypeName ThisExpression = ''ThisExpression''"
| "otherTypeName UnaryExpression = ''UnaryExpression''"
| "otherTypeName UpdateExpression = ''UpdateExpression''"

text \<open>\<open>expression.type\<close> and \<open>expression.loc\<close>.\<close>

fun exprType :: "expr \<Rightarrow> string" where
  "exprType (Literal l r) = ''Literal''"
| "exprType (Identifier l n) = ''Identifier''"
| "exprType (SequenceExpression l es) = ''SequenceExpression''"
| "exprType (ObjectExpression l ps) = ''ObjectExpression''"
| "exprType (AssignmentExpression l a b) = ''AssignmentExpression''"
| "exprType (OtherExpression ty l src) = otherTypeName ty"

fun exprLoc :: "expr \<Rightarrow> loc" where
  "exprLoc (Literal l r) = l"
| "exprLoc (Identifier l n) = l"
| "exprLoc (SequenceExpression l es) = l"
| "exprLoc (ObjectExpression l ps) = l"
| "exprLoc (AssignmentExpression l a b) = l"
| "exprLoc (OtherExpression ty l src) = l"

text \<open>\<open>raw\<close> is read only from nodes that were validated as literals.\<close>

fun raw :: "expr \<Rightarrow> string" where
  "raw (Literal l r) = r"

text \<open>
  \<open>left.name\<close> is undefined unless \<open>left\<close> is an identifier; a template string prints
  an undefined value as the text \<open>undefined\<close>.
\<close>

fun name :: "expr \<Rightarrow> string option" where
  "name (Identifier l n) = Some n"
| "name e = None"

fun toText :: "string option \<Rightarrow> string" where
  "toText None = ''undefined''"
| "toText (Some s) = s"

text \<open>
  The expression compiler is a parameter: \<open>parser.options.filename\<close> and
  \<open>parser.statementToString\<close>, which renders a node to code text. The source passes it
  array elements that may be missing (undefined), hence the option.
\<close>

record parser =
  optionsFilename :: string
  statementToString :: "expr option \<Rightarrow> string"

text \<open>Reading an array out of range gives undefined; \<open>shift\<close> removes the first element.\<close>

definition nth_opt :: "'a list \<Rightarrow> nat \<Rightarrow> 'a option" where
  "nth_opt xs i = (if i < length xs then Some (xs ! i) else None)"

fun shift :: "'a list \<Rightarrow> 'a option \<times> 'a list" where
  "shift [] = (None, [])"
| "shift (x # xs) = (Some x, xs)"

section \<open>Errors and expression validation\<close>

fun allowExpressions :: "string \<Rightarrow> expr option \<Rightarrow> string list \<Rightarrow> string \<Rightarrow> error + unit" where
  "allowExpressions tag None expressions fname = Inl TypeError"
| "allowExpressions tag (Some expression) expressions fname =
     (if exprType expression \<notin> set expressions
      then Inl (EdgeError (exprType expression @ '' is not allowed for '' @ tag @ '' tag.'')
                  ''E_UNALLOWED_EXPRESSION''
                  (line (start (exprLoc expression)))
                  (column (start (exprLoc expression)))
                  fname)
      else Inr ())"

section \<open>Tag arguments\<close>

text \<open>\<open>ObjectifyString\<close>: the private field \<open>obj\<close> is the state; \<open>flush\<close> returns the
  text and the reset state.\<close>

type_synonym ObjectifyString = string

definition ObjectifyString_add :: "string \<Rightarrow> string \<Rightarrow> ObjectifyString \<Rightarrow> ObjectifyString" where
  "ObjectifyString_add key val obj =
     obj @ (if length obj \<noteq> 0 then '', '' @ key @ '': '' @ val else key @ '': '' @ val)"

definition ObjectifyString_flush :: "ObjectifyString \<Rightarrow> string \<times> ObjectifyString" where
  "ObjectifyString_flush obj = (''{ '' @ obj @ '' }'', [])"

text \<open>The callback of \<open>expression.expressions.forEach\<close>, with the builder threaded through.\<close>

fun forEachArg :: "parser \<Rightarrow> ObjectifyString \<Rightarrow> expr \<Rightarrow> ObjectifyString" where
  "forEachArg parser obj (ObjectExpression l properties) =
     foldl (\<lambda>obj (key, val).
              ObjectifyString_add (statementToString parser (Some key))
                (statementToString parser (Some val)) obj)
       obj properties"
| "forEachArg parser obj (AssignmentExpression l left right) =
     ObjectifyString_add (toText (name left)) (statementToString parser (Some right)) obj"
| "forEachArg parser obj arg = obj"

text \<open>
  \<open>parseSequenceExpression\<close> removes the first element from the element list of the
  node it is given (\<open>shift\<close>), so the node after the call is returned with the result.
\<close>

fun parseSequenceExpression :: "expr \<Rightarrow> parser \<Rightarrow> (string \<times> string) \<times> expr" where
  "parseSequenceExpression (SequenceExpression l expressions) parser =
     (case shift expressions of (first, rest) \<Rightarrow>
        ((statementToString parser first,
          fst (ObjectifyString_flush (foldl (forEachArg parser) [] rest))),
         SequenceExpression l rest))"
| "parseSequenceExpression expression parser =
     ((statementToString parser (Some expression), ''{}''), expression)"

text \<open>
  \<open>parseAsKeyValuePair\<close> writes nothing; the node is returned as it was given. A
  sequence whose element 0 is missing fails where the validator reads its type, and so
  does a missing element 1 when value types are enforced. No node other than a literal
  or a sequence passes the first validation, so the last branch is never taken.
\<close>

definition parseAsKeyValuePair ::
  "expr \<Rightarrow> parser \<Rightarrow> string list \<Rightarrow> (error + string \<times> string option) \<times> expr" where
  "parseAsKeyValuePair expression parser valueExpressions =
     (case allowExpressions ''slot'' (Some expression) [''Literal'', ''SequenceExpression'']
             (optionsFilename parser) of
        Inl err \<Rightarrow> Inl err
      | Inr u \<Rightarrow>
         (case expression of
            Literal l r \<Rightarrow> Inr (r, None)
          | SequenceExpression l expressions \<Rightarrow>
             (if length expressions > 2
              then Inl (EdgeError ''Maximum of 2 arguments are allowed for slot tag''
                          ''E_MAX_ARGUMENTS'' (line (start l)) (column (start l))
                          (optionsFilename parser))
              else case allowExpressions ''slot'' (nth_opt expressions 0) [''Literal'']
                          (optionsFilename parser) of
                 Inl err \<Rightarrow> Inl err
               | Inr u \<Rightarrow>
                  (case (if length valueExpressions \<noteq> 0
                         then allowExpressions ''slot'' (nth_opt expressions 1)
                                valueExpressions (optionsFilename parser)
                         else Inr ()) of
                     Inl err \<Rightarrow> Inl err
                   | Inr u \<Rightarrow>
                       Inr (raw (expressions ! 0),
                            Some (statementToString parser (nth_opt expressions 1)))))
          | other \<Rightarrow> Inl TypeError),
      expression)"


section \<open>Template paths\<close>

text \<open>
  \<open>String.prototype.split\<close> with a string separator: the pieces between the
  occurrences of the separator, found from left to right without overlap; an empty
  separator splits into single characters. \<open>splitFrom sep piece s\<close> scans \<open>s\<close> with the
  current piece collected so far.
\<close>

function splitFrom :: "string \<Rightarrow> string \<Rightarrow> string \<Rightarrow> string list" where
  "splitFrom sep piece [] = [piece]"
| "splitFrom sep piece (c # cs) =
     (if sep \<noteq> [] \<and> take (length sep) (c # cs) = sep
      then piece # splitFrom sep [] (drop (length sep) (c # cs))
      else splitFrom sep (piece @ [c]) cs)"
  by pat_completeness auto
termination
  by (relation "measure (\<lambda>(sep, piece, s). length s)") auto

definition js_split :: "string \<Rightarrow> string \<Rightarrow> string list" where
  "js_split s sep = (if sep = [] then map (\<lambda>c. [c]) s else splitFrom sep [] s)"

text \<open>\<open>Array.prototype.join\<close>.\<close>

fun js_join :: "string list \<Rightarrow> string \<Rightarrow> string" where
  "js_join [] sep = []"
| "js_join [x] sep = x"
| "js_join (x # y # ys) sep = x @ sep @ js_join (y # ys) sep"

text \<open>\<open>template.replace(/\./, r)\<close>: a regular expression without the global flag.\<close>

fun replaceDot :: "string \<Rightarrow> string \<Rightarrow> string" where
  "replaceDot [] r = []"
| "replaceDot (c # cs) r = (if c = CHR ''.'' then r @ cs else c # replaceDot cs r)"

text \<open>\<open>sep\<close> of the \<open>path\<close> module: a slash, or a backslash on Windows.\<close>

datatype platform = Posix | Win32

fun sep :: "platform \<Rightarrow> string" where
  "sep Posix = ''/''"
| "sep Win32 = [CHR 0x5C]"

text \<open>
  \<open>split\<close> never returns an empty list for a non-empty separator, so the first branch
  of each case below is never taken; it holds what the destructuring of an empty array
  would give.
\<close>

definition extractDiskAndTemplateName :: "platform \<Rightarrow> string \<Rightarrow> string \<times> string" where
  "extractDiskAndTemplateName p templatePath =
     (case (case js_split templatePath ''::'' of
              [] \<Rightarrow> (''default'', [[]])
            | disk # rest \<Rightarrow> if length rest = 0 then (''default'', [disk]) else (disk, rest)) of
        (disk, rest) \<Rightarrow>
          (case js_split (js_join rest ''::'') ''.edge'' of
             [] \<Rightarrow> (disk, ''.edge'')
           | template # exts \<Rightarrow>
               (disk, replaceDot template (sep p) @ ''.'' @
                  (case nth_opt exts 0 of
                     None \<Rightarrow> ''edge''
                   | Some ext \<Rightarrow> if ext = [] then ''edge'' else ext))))"

text \<open>
  The path resolver in the words of the specification. \<open>breakOn d s\<close> splits \<open>s\<close> on the
  first occurrence of \<open>d\<close> into what is before and what is after it.
\<close>

fun breakOn :: "string \<Rightarrow> string \<Rightarrow> (string \<times> string) option" where
  "breakOn d [] = (if d = [] then Some ([], []) else None)"
| "breakOn d (c # cs) =
     (if take (length d) (c # cs) = d then Some ([], drop (length d) (c # cs))
      else map_option (\<lambda>(a, b). (c # a, b)) (breakOn d cs))"

definition extractDiskAndTemplateName_spec :: "platform \<Rightarrow> string \<Rightarrow> string \<times> string" where
  "extractDiskAndTemplateName_spec p reference =
     (case (case breakOn ''::'' reference of
              None \<Rightarrow> (''default'', reference)
            | Some (d, r) \<Rightarrow> (d, r)) of
        (diskName, templatePart) \<Rightarrow>
          (case (case breakOn ''.edge'' templatePart of
                   None \<Rightarrow> (templatePart, [])
                 | Some (t, after) \<Rightarrow>
                     (t, case breakOn ''.edge'' after of None \<Rightarrow> after | Some (e, x) \<Rightarrow> e)) of
             (dotted, ext) \<Rightarrow>
               (diskName,
                (case breakOn ''.'' dotted of
                   None \<Rightarrow> dotted
                 | Some (a, b) \<Rightarrow> a @ sep p @ b)
                @ ''.'' @ (if ext = [] then ''edge'' else ext))))"

text \<open>
  The props literal in the words of the specification: the pairs each element
  contributes, joined by commas and wrapped in braces.
\<close>

fun pairsOf :: "parser \<Rightarrow> expr \<Rightarrow> (string \<times> string) list" where
  "pairsOf parser (ObjectExpression l properties) =
     map (\<lambda>(key, val). (statementToString parser (Some key),
                         statementToString parser (Some val))) properties"
| "pairsOf parser (AssignmentExpression l (Identifier l' n) right) =
     [(n, statementToString parser (Some right))]"
| "pairsOf parser (AssignmentExpression l left right) =
     [(''undefined'', statementToString parser (Some right))]"
| "pairsOf parser arg = []"

definition propsLiteral_spec :: "parser \<Rightarrow> expr list \<Rightarrow> string" where
  "propsLiteral_spec parser args =
     ''{ '' @ js_join (map (\<lambda>(key, val). key @ '': '' @ val) (concat (map (pairsOf parser) args)))
               '', '' @ '' }''"

section \<open>Example inputs\<close>

text \<open>
  A layout with two sections and child templates that extend or override them, as the
  lexer would return them; argument texts keep their quotes.
\<close>

definition quoted :: "string \<Rightarrow> string" where
  "quoted s = CHR 0x27 # s @ [CHR 0x27]"

definition layoutAt :: "nat \<Rightarrow> location" where
  "layoutAt n = \<lparr>line = n, column = 0, filename = ''layout.edge''\<rparr>"

definition childAt :: "nat \<Rightarrow> location" where
  "childAt n = \<lparr>line = n, column = 0, filename = ''child.edge''\<rparr>"

definition layoutContent :: token where
  "layoutContent =
     TagToken TAG (layoutAt 2) ''section'' (quoted ''content'')
       [PlainToken TEXT (layoutAt 3) ''base content'']"

definition layoutFooter :: token where
  "layoutFooter =
     TagToken TAG (layoutAt 5) ''section'' (quoted ''footer'')
       [PlainToken TEXT (layoutAt 6) ''base footer'']"

definition layoutTitle :: token where
  "layoutTitle = PlainToken TEXT (layoutAt 1) ''<h1>''"

definition childSetX :: token where
  "childSetX = TagToken TAG (childAt 1) ''set'' (quoted ''x'' @ '', 1'') []"

definition childSetY :: token where
  "childSetY = TagToken TAG (childAt 9) ''set'' (quoted ''y'' @ '', 2'') []"

definition childText :: token where
  "childText = PlainToken TEXT (childAt 2) ''outside of any section''"

definition childSuper :: token where
  "childSuper = TagToken TAG (childAt 4) ''super'' [] []"

definition childContentSuper :: token where
  "childContentSuper =
     TagToken TAG (childAt 3) ''section'' ('' '' @ quoted ''content'' @ '' '')
       [childSuper, PlainToken TEXT (childAt 5) ''child content'']"

definition childContent :: token where
  "childContent =
     TagToken TAG (childAt 3) ''section'' (quoted ''content'')
       [PlainToken TEXT (childAt 5) ''child content'']"

definition childContentEarlier :: token where
  "childContentEarlier =
     TagToken TAG (childAt 7) ''section'' (quoted ''content'')
       [PlainToken TEXT (childAt 8) ''earlier content'']"

definition childSidebar :: token where
  "childSidebar =
     TagToken TAG (childAt 7) ''section'' (quoted ''sidebar'')
       [PlainToken TEXT (childAt 8) ''child sidebar'']"

text \<open>
  A stand-in for the lexer's token objects, with the members the source reads, and
  sections whose identifiers are names of inherited members.
\<close>

fun lexerMembers :: "token \<Rightarrow> string \<Rightarrow> member" where
  "lexerMembers t key =
     (if key = ''type'' \<or> key = ''properties'' \<or> key = ''children'' then TruthyMember
      else NoMember)"

definition layoutConstructor :: token where
  "layoutConstructor =
     TagToken TAG (layoutAt 8) ''section'' ''constructor''
       [PlainToken TEXT (layoutAt 9) ''base constructor'']"

definition layoutChildren :: token where
  "layoutChildren =
     TagToken TAG (layoutAt 8) ''section'' ''children''
       [PlainToken TEXT (layoutAt 9) ''base children'']"

definition childProto :: token where
  "childProto =
     TagToken TAG (childAt 7) ''section'' ''__proto__''
       [PlainToken TEXT (childAt 8) ''child proto'']"

definition layoutContentPadded :: token where
  "layoutContentPadded =
     TagToken TAG (layoutAt 2) ''section'' (CHR 0xA0 # quoted ''content'')
       [PlainToken TEXT (layoutAt 3) ''padded content'']"

text \<open>
  A stand-in for the expression compiler: literals are rendered by their raw text and
  identifiers by their name. The call \<open>('card', title = 'hi')\<close> and its parts.
\<close>

fun exampleRender :: "expr option \<Rightarrow> string" where
  "exampleRender (Some (Literal l r)) = r"
| "exampleRender (Some (Identifier l n)) = n"
| "exampleRender e = []"

definition exampleParser :: parser where
  "exampleParser = \<lparr>optionsFilename = ''welcome.edge'', statementToString = exampleRender\<rparr>"

definition exprAt :: "nat \<Rightarrow> nat \<Rightarrow> loc" where
  "exprAt l c = \<lparr>start = \<lparr>line = l, column = c\<rparr>\<rparr>"

definition cardLiteral :: expr where
  "cardLiteral = Literal (exprAt 1 1) (quoted ''card'')"

definition hiLiteral :: expr where
  "hiLiteral = Literal (exprAt 1 17) (quoted ''hi'')"

definition titleAssignment :: expr where
  "titleAssignment = AssignmentExpression (exprAt 1 9) (Identifier (exprAt 1 9) ''title'') hiLiteral"

definition userIdentifier :: expr where
  "userIdentifier = Identifier (exprAt 1 9) ''user''"

definition cardCall :: expr where
  "cardCall = SequenceExpression (exprAt 1 1) [cardLiteral, titleAssignment]"

section \<open>Lemmas about the section store\<close>

lemma extendedSections_snoc:
  "extendedSections (xs @ [x]) =
     (if isBlock x ''section'' then (extendedSections xs)(trim (jsArg x) \<mapsto> x)
      else extendedSections xs)"
  by (simp add: extendedSections_def)

lemma extendedSections_last:
  "extendedSections extended A =
     (case filter (\<lambda>n. isBlock n ''section'' \<and> trim (jsArg n) = A) extended of
        [] \<Rightarrow> None | s # ss \<Rightarrow> Some (last (s # ss)))"
proof (induction extended rule: rev_induct)
  case Nil
  show ?case by (simp add: extendedSections_def)
next
  case (snoc x xs)
  show ?case
    using snoc by (auto simp add: extendedSections_snoc split: list.splits)
qed


lemma passNodes_length: "length (fst (passNodes s base)) = length base"
proof (induction base arbitrary: s)
  case Nil
  show ?case by simp
next
  case (Cons n base)
  obtain sl s' where a: "passNode s n = (sl, s')" by (cases "passNode s n")
  obtain ss s'' where b: "passNodes s' base = (ss, s'')" by (cases "passNodes s' base")
  show ?case using Cons.IH [of s'] a b by simp
qed

lemma passNode_other_key:
  "\<not> (isBlock n ''section'' \<and> trim (jsArg n) = k) \<Longrightarrow> snd (passNode s n) k = s k"
  by (auto simp add: passNode_def split: option.splits)

lemma passNodes_other_key:
  "\<forall>n\<in>set base. \<not> (isBlock n ''section'' \<and> trim (jsArg n) = k) \<Longrightarrow>
     snd (passNodes s base) k = s k"
proof (induction base arbitrary: s)
  case Nil
  show ?case by simp
next
  case (Cons n base)
  obtain sl s' where a: "passNode s n = (sl, s')" by (cases "passNode s n")
  obtain ss s'' where b: "passNodes s' base = (ss, s'')" by (cases "passNodes s' base")
  have "s' k = s k" using passNode_other_key [of n k s] Cons.prems a by simp
  moreover have "s'' k = s' k" using Cons.IH [of s'] Cons.prems b by simp
  ultimately show ?case using a b by simp
qed

lemma passNodes_append:
  "passNodes s (xs @ ys) =
     (case passNodes s xs of (a, s') \<Rightarrow>
        (case passNodes s' ys of (b, s'') \<Rightarrow> (a @ b, s'')))"
  by (induction xs arbitrary: s) (auto split: prod.splits)







lemma children_setChildren:
  "isBlock e nm \<Longrightarrow> children (setChildren e cs) = cs"
  by (cases e) simp_all











lemma passNodes_unique_super:
  assumes b: "isBlock b ''section''"
    and others: "\<forall>n\<in>set pre \<union> set post.
                   \<not> (isBlock n ''section'' \<and> trim (jsArg n) = trim (jsArg b))"
    and e: "s (trim (jsArg b)) = Some e"
  shows "map (deref (snd (passNodes s (pre @ b # post)))) (fst (passNodes s (pre @ b # post)))
           ! length pre =
         (if hasChildSuper e then setChildren e (children b @ children e) else e)"
proof -
  let ?k = "trim (jsArg b)"
  let ?e' = "if hasChildSuper e then setChildren e (children b @ children e) else e"
  obtain a s1 where m1: "passNodes s pre = (a, s1)" by (cases "passNodes s pre")
  obtain c s2 where m2: "passNode s1 b = (c, s2)" by (cases "passNode s1 b")
  obtain d s3 where m3: "passNodes s2 post = (d, s3)" by (cases "passNodes s2 post")
  have la: "length a = length pre" using passNodes_length [of s pre] m1 by simp
  have "s1 ?k = Some e" using passNodes_other_key [of pre ?k s] others e m1 by simp
  then have c: "c = ExtendedNode ?k" and s2: "s2 ?k = Some ?e'"
    using m2 b by (auto simp add: passNode_def)
  have s3: "s3 ?k = Some ?e'" using passNodes_other_key [of post ?k s2] others s2 m3 by simp
  have "passNodes s (pre @ b # post) = (a @ c # d, s3)"
    using m1 m2 m3 by (simp add: passNodes_append)
  then show ?thesis using la c s3 by (simp add: nth_append)
qed

lemma extendedSections_None:
  "\<forall>x\<in>set extended. \<not> (isBlock x ''section'' \<and> trim (jsArg x) = A) \<Longrightarrow>
     extendedSections extended A = None"
proof -
  assume "\<forall>x\<in>set extended. \<not> (isBlock x ''section'' \<and> trim (jsArg x) = A)"
  then have "filter (\<lambda>n. isBlock n ''section'' \<and> trim (jsArg n) = A) extended = []"
    by (simp add: filter_empty_conv)
  then show ?thesis by (simp add: extendedSections_last)
qed

lemma extendedSections_decomp:
  assumes "isBlock e ''section''"
    and "\<forall>x\<in>set epost. \<not> (isBlock x ''section'' \<and> trim (jsArg x) = trim (jsArg e))"
  shows "extendedSections (epre @ e # epost) (trim (jsArg e)) = Some e"
proof -
  let ?P = "\<lambda>n. isBlock n ''section'' \<and> trim (jsArg n) = trim (jsArg e)"
  have "filter ?P epost = []" using assms(2) by (simp add: filter_empty_conv)
  then have f: "filter ?P (epre @ e # epost) = filter ?P epre @ [e]"
    using assms(1) by simp
  have "(case filter ?P epre @ [e] of [] \<Rightarrow> None | s # ss \<Rightarrow> Some (last (s # ss))) = Some e"
    by (cases "filter ?P epre") simp_all
  then show ?thesis
    unfolding extendedSections_last f .
qed


lemma passFinal_fst_snd:
  "passFinal base extended =
     map (deref (snd (passNodes (extendedSections extended) base)))
       (fst (passNodes (extendedSections extended) base))"
  by (simp add: passFinal_def split: prod.splits)




lemma passNode_None: "s k = None \<Longrightarrow> snd (passNode s n) k = None"
  by (auto simp add: passNode_def split: option.splits)

lemma passNodes_None: "s k = None \<Longrightarrow> snd (passNodes s base) k = None"
proof (induction base arbitrary: s)
  case Nil
  then show ?case by simp
next
  case (Cons n base)
  obtain sl s' where a: "passNode s n = (sl, s')" by (cases "passNode s n")
  obtain ss s'' where b: "passNodes s' base = (ss, s'')" by (cases "passNodes s' base")
  have "s' k = None" using passNode_None [of s k n] Cons.prems a by simp
  then have "s'' k = None" using Cons.IH [of s'] b by simp
  then show ?case using a b by simp
qed

lemma mapNode_pass:
  "mapNode members s n =
     (if nodeFails members s n then Inl TypeError else Inr (passNode s n))"
  by (auto simp add: mapNode_def passNode_def nodeFails_def lookup_def
        split: option.splits member.splits)

lemma mapNodes_pass:
  "mapNodes members s base =
     (if fails members s base then Inl TypeError else Inr (passNodes s base))"
proof (induction base arbitrary: s)
  case Nil
  show ?case by simp
next
  case (Cons n base)
  obtain sl s' where a: "passNode s n = (sl, s')" by (cases "passNode s n")
  obtain ss s'' where b: "passNodes s' base = (ss, s'')" by (cases "passNodes s' base")
  show ?case using Cons.IH [of s'] a b by (simp add: mapNode_pass)
qed

lemma finalNodes_pass:
  "finalNodes members base extended =
     (if fails members (extendedSections extended) base then Inl TypeError
      else Inr (passFinal base extended))"
  by (simp add: finalNodes_def passFinal_def mapNodes_pass split: prod.splits)

lemma mergeSections_pass:
  "mergeSections members base extended =
     (if fails members (extendedSections extended) base then Inl TypeError
      else Inr (extendedSetCalls extended @ passFinal base extended))"
  by (simp add: mergeSections_def finalNodes_pass)

lemma inherited_plain:
  "s ''__proto__'' = None \<Longrightarrow> k \<notin> set objectPrototypeMembers \<Longrightarrow>
     inherited members s k = NoMember"
  by (simp add: inherited_def)

lemma not_fails:
  assumes "s ''__proto__'' = None"
    and "\<forall>n\<in>set base. isBlock n ''section'' \<longrightarrow> trim (jsArg n) \<notin> set objectPrototypeMembers"
  shows "\<not> fails members s base"
  using assms
proof (induction base arbitrary: s)
  case Nil
  show ?case by simp
next
  case (Cons n base)
  have "\<not> nodeFails members s n"
    using Cons.prems inherited_plain [of s "trim (jsArg n)" members]
    by (auto simp add: nodeFails_def)
  moreover have "snd (passNode s n) ''__proto__'' = None"
    using passNode_None [of s "''__proto__''" n] Cons.prems(1) by simp
  then have "\<not> fails members (snd (passNode s n)) base"
    using Cons.IH [of "snd (passNode s n)"] Cons.prems(2) by simp
  ultimately show ?case by simp
qed

lemma extendedSections_no_proto:
  "\<forall>x\<in>set extended. isBlock x ''section'' \<longrightarrow> trim (jsArg x) \<noteq> ''__proto__'' \<Longrightarrow>
     extendedSections extended ''__proto__'' = None"
  by (rule extendedSections_None) blast

lemma mergeSections_plain:
  assumes "\<forall>n\<in>set base. isBlock n ''section'' \<longrightarrow> trim (jsArg n) \<notin> set objectPrototypeMembers"
    and "\<forall>x\<in>set extended. isBlock x ''section'' \<longrightarrow> trim (jsArg x) \<noteq> ''__proto__''"
  shows "mergeSections members base extended =
           Inr (extendedSetCalls extended @ passFinal base extended)"
proof -
  have "extendedSections extended ''__proto__'' = None"
    using assms(2) by (rule extendedSections_no_proto)
  then have "\<not> fails members (extendedSections extended) base"
    using assms(1) by (rule not_fails)
  then show ?thesis by (simp add: mergeSections_pass)
qed



section \<open>Lemmas about splitting and joining\<close>

lemma splitFrom_not_Nil: "splitFrom d piece s \<noteq> []"
  by (induction d piece s rule: splitFrom.induct) auto

lemma js_join_Cons: "js_join (x # xs) d = (if xs = [] then x else x @ d @ js_join xs d)"
  by (cases xs) simp_all

lemma splitFrom_breakOn:
  "d \<noteq> [] \<Longrightarrow>
   splitFrom d piece s =
     (case breakOn d s of None \<Rightarrow> [piece @ s]
      | Some (a, b) \<Rightarrow> (piece @ a) # splitFrom d [] b)"
proof (induction s arbitrary: piece)
  case Nil
  then show ?case by simp
next
  case (Cons c cs)
  show ?case
  proof (cases "take (length d) (c # cs) = d")
    case True
    then show ?thesis using Cons.prems by simp
  next
    case False
    then show ?thesis
      using Cons.IH [of "piece @ [c]"] Cons.prems by (auto split: option.splits)
  qed
qed

lemma js_join_splitFrom: "d \<noteq> [] \<Longrightarrow> js_join (splitFrom d piece s) d = piece @ s"
proof (induction d piece s rule: splitFrom.induct)
  case (1 d piece)
  show ?case by simp
next
  case (2 d piece c cs)
  show ?case
  proof (cases "take (length d) (c # cs) = d")
    case True
    have "js_join (splitFrom d [] (drop (length d) (c # cs))) d = drop (length d) (c # cs)"
      using "2.IH"(1) "2.prems" True by simp
    moreover have "d @ drop (length d) (c # cs) = c # cs"
      using append_take_drop_id [of "length d" "c # cs"] True by simp
    ultimately show ?thesis
      using True "2.prems" by (simp add: js_join_Cons splitFrom_not_Nil)
  next
    case False
    then show ?thesis using "2.IH"(2) "2.prems" by simp
  qed
qed

lemma replaceDot_breakOn:
  "replaceDot t r = (case breakOn ''.'' t of None \<Rightarrow> t | Some (a, b) \<Rightarrow> a @ r @ b)"
  by (induction t) (auto split: option.splits)

lemma js_split_breakOn:
  "d \<noteq> [] \<Longrightarrow>
   js_split s d = (case breakOn d s of None \<Rightarrow> [s] | Some (a, b) \<Rightarrow> a # js_split b d)"
  using splitFrom_breakOn [of d "[]" s] by (simp add: js_split_def split: option.splits)

lemma js_join_js_split: "d \<noteq> [] \<Longrightarrow> js_join (js_split s d) d = s"
  using js_join_splitFrom [of d "[]" s] by (simp add: js_split_def)

lemma js_split_not_Nil: "d \<noteq> [] \<Longrightarrow> js_split s d \<noteq> []"
  by (simp add: js_split_def splitFrom_not_Nil)

lemma extract_refines:
  "extractDiskAndTemplateName p reference = extractDiskAndTemplateName_spec p reference"
proof -
  have disk: "(case js_split reference ''::'' of
              [] \<Rightarrow> (''default'', [[]])
            | disk # rest \<Rightarrow> if length rest = 0 then (''default'', [disk]) else (disk, rest))
        = (case breakOn ''::'' reference of
              None \<Rightarrow> (''default'', [reference])
            | Some (d, r) \<Rightarrow> (d, js_split r ''::''))"
    using js_split_not_Nil [of "''::''"]
    by (simp add: js_split_breakOn [of "''::''" reference] split: option.splits)
  have path: "(case js_split t ''.edge'' of
             [] \<Rightarrow> (dk, ''.edge'')
           | template # exts \<Rightarrow>
               (dk, replaceDot template (sep p) @ ''.'' @
                  (case nth_opt exts 0 of
                     None \<Rightarrow> ''edge''
                   | Some ext \<Rightarrow> if ext = [] then ''edge'' else ext)))
        = (case (case breakOn ''.edge'' t of
                   None \<Rightarrow> (t, [])
                 | Some (t', after) \<Rightarrow>
                     (t', case breakOn ''.edge'' after of None \<Rightarrow> after | Some (e, x) \<Rightarrow> e)) of
             (dotted, ext) \<Rightarrow>
               (dk,
                (case breakOn ''.'' dotted of
                   None \<Rightarrow> dotted
                 | Some (a, b) \<Rightarrow> a @ sep p @ b)
                @ ''.'' @ (if ext = [] then ''edge'' else ext)))" for t dk
  proof (cases "breakOn ''.edge'' t")
    case None
    then show ?thesis
      by (simp add: js_split_breakOn [of "''.edge''" t] nth_opt_def replaceDot_breakOn)
  next
    case (Some ab)
    obtain a b where ab: "ab = (a, b)" by (cases ab)
    show ?thesis
      using Some ab
      by (simp add: js_split_breakOn [of "''.edge''" t] js_split_breakOn [of "''.edge''" b]
            nth_opt_def replaceDot_breakOn split: option.splits)
  qed
  show ?thesis
    unfolding extractDiskAndTemplateName_def extractDiskAndTemplateName_spec_def disk
    by (simp add: path js_join_js_split split: option.splits)
qed

section \<open>Lemmas about the object builder\<close>

lemma add_pairs:
  "foldl (\<lambda>obj (key, val). ObjectifyString_add key val obj) obj pairs =
     (if pairs = [] then obj
      else if obj = [] then js_join (map (\<lambda>(key, val). key @ '': '' @ val) pairs) '', ''
      else obj @ '', '' @ js_join (map (\<lambda>(key, val). key @ '': '' @ val) pairs) '', '')"
proof (induction pairs arbitrary: obj)
  case Nil
  show ?case by simp
next
  case (Cons kv pairs)
  obtain k v where kv: "kv = (k, v)" by (cases kv)
  show ?case
    using Cons.IH [of "ObjectifyString_add k v obj"] kv
    by (simp add: ObjectifyString_add_def js_join_Cons)
qed

lemma forEachArg_pairs:
  "forEachArg parser obj arg =
     foldl (\<lambda>obj (key, val). ObjectifyString_add key val obj) obj (pairsOf parser arg)"
proof (cases arg)
  case (ObjectExpression l props)
  have "foldl (\<lambda>obj (key, val).
              ObjectifyString_add (statementToString parser (Some key))
                (statementToString parser (Some val)) obj) obj props =
        foldl (\<lambda>obj (key, val). ObjectifyString_add key val obj) obj
          (map (\<lambda>(key, val). (statementToString parser (Some key),
                         statementToString parser (Some val))) props)"
    by (induction props arbitrary: obj) (auto split: prod.splits)
  then show ?thesis using ObjectExpression by simp
next
  case (AssignmentExpression l left right)
  then show ?thesis by (cases left) simp_all
qed simp_all

lemma forEach_pairs:
  "foldl (forEachArg parser) obj args =
     foldl (\<lambda>obj (key, val). ObjectifyString_add key val obj) obj
       (concat (map (pairsOf parser) args))"
  by (induction args arbitrary: obj) (simp_all add: forEachArg_pairs)

lemma flush_forEach:
  "fst (ObjectifyString_flush (foldl (forEachArg parser) [] args)) =
     propsLiteral_spec parser args"
proof -
  define ps where "ps = concat (map (pairsOf parser) args)"
  have "foldl (forEachArg parser) [] args =
          js_join (map (\<lambda>(key, val). key @ '': '' @ val) ps) '', ''"
    unfolding forEach_pairs ps_def [symmetric] by (simp add: add_pairs)
  then show ?thesis
    by (simp add: ObjectifyString_flush_def propsLiteral_spec_def ps_def)
qed

lemma pairsOf_other:
  "exprType a \<noteq> ''ObjectExpression'' \<Longrightarrow> exprType a \<noteq> ''AssignmentExpression'' \<Longrightarrow>
     pairsOf parser a = []"
  by (cases a) simp_all

lemma exprType_Sequence:
  "exprType e = ''SequenceExpression'' \<longleftrightarrow> (\<exists>l es. e = SequenceExpression l es)"
proof (cases e)
  case (OtherExpression ty l src)
  then show ?thesis by (cases ty) simp_all
qed simp_all

lemma exprType_Literal:
  "exprType e = ''Literal'' \<longleftrightarrow> (\<exists>l r. e = Literal l r)"
proof (cases e)
  case (OtherExpression ty l src)
  then show ?thesis by (cases ty) simp_all
qed simp_all

lemma parseSequenceExpression_other:
  "exprType e \<noteq> ''SequenceExpression'' \<Longrightarrow>
     parseSequenceExpression e parser = ((statementToString parser (Some e), ''{}''), e)"
  by (cases e) simp_all

lemmas token_examples =
  quoted_def layoutAt_def childAt_def layoutContent_def layoutFooter_def layoutTitle_def
  childSetX_def childSetY_def childText_def childSuper_def childContentSuper_def
  childContent_def childContentEarlier_def childSidebar_def layoutConstructor_def
  layoutChildren_def childProto_def layoutContentPadded_def

lemmas trim_eval = trim_def isWhiteSpace_def

lemmas merge_eval =
  mergeSections_def finalNodes_def mapNode_def lookup_def inherited_def
  extendedSections_def extendedSetCalls_def hasChildSuper_def objectPrototypeMembers_def

section \<open>The section merger\<close>

text \<open>
  Claim C1, as the code has it. Let the base list contain a top-level section \<open>b\<close> and no
  other top-level section with the same trimmed identifier, and let \<open>e\<close> be the last
  top-level section of the extended list with that trimmed identifier, its first child
  a \<open>super\<close> tag. Let no top-level section of the base list have a trimmed identifier
  that names a member every plain object inherits, and no top-level section of the
  extended list the trimmed identifier \<open>__proto__\<close>. Then the call returns a list that
  holds, at the place of \<open>b\<close>, the section \<open>e\<close> with the children of \<open>b\<close> followed by all
  the children of \<open>e\<close>: the leading \<open>super\<close> tag stays in the list, between the two.
\<close>

theorem mergeSections_super_concat:
  assumes b: "isBlock b ''section''"
    and others: "\<forall>n\<in>set pre \<union> set post.
                   \<not> (isBlock n ''section'' \<and> trim (jsArg n) = trim (jsArg b))"
    and e: "isBlock e ''section''" "trim (jsArg e) = trim (jsArg b)" "hasChildSuper e"
    and last: "\<forall>x\<in>set epost. \<not> (isBlock x ''section'' \<and> trim (jsArg x) = trim (jsArg e))"
    and plain: "\<forall>n\<in>set (pre @ b # post).
                  isBlock n ''section'' \<longrightarrow> trim (jsArg n) \<notin> set objectPrototypeMembers"
    and noproto: "\<forall>x\<in>set (epre @ e # epost).
                    isBlock x ''section'' \<longrightarrow> trim (jsArg x) \<noteq> ''__proto__''"
  shows "\<exists>nodes. mergeSections members (pre @ b # post) (epre @ e # epost) = Inr nodes
       \<and> nodes ! (length (extendedSetCalls (epre @ e # epost)) + length pre) =
           setChildren e (children b @ children e)
       \<and> children (nodes ! (length (extendedSetCalls (epre @ e # epost)) + length pre)) =
           children b @ children e"
proof -
  let ?ext = "epre @ e # epost"
  let ?nodes = "extendedSetCalls ?ext @ passFinal (pre @ b # post) ?ext"
  have ret: "mergeSections members (pre @ b # post) ?ext = Inr ?nodes"
    using plain noproto by (rule mergeSections_plain)
  have "extendedSections ?ext (trim (jsArg b)) = Some e"
    using extendedSections_decomp [OF e(1) last, of epre] e(2) by simp
  then have "passFinal (pre @ b # post) ?ext ! length pre =
      setChildren e (children b @ children e)"
    using passNodes_unique_super [OF b others, of "extendedSections ?ext" e] e(3)
    by (simp add: passFinal_fst_snd)
  then have at: "?nodes ! (length (extendedSetCalls ?ext) + length pre) =
         setChildren e (children b @ children e)"
    by (simp add: nth_append)
  then have "children (?nodes ! (length (extendedSetCalls ?ext) + length pre)) =
         children b @ children e"
    using e(1) by (simp add: children_setChildren)
  with ret at show ?thesis by blast
qed

theorem mergeSections_super_concat_witness:
  "\<exists>nodes. mergeSections lexerMembers ([layoutTitle] @ layoutContent # [layoutFooter])
       ([childSetX, childText] @ childContentSuper # [childSetY]) = Inr nodes
     \<and> nodes ! (length (extendedSetCalls ([childSetX, childText] @ childContentSuper # [childSetY]))
        + length [layoutTitle]) =
       TagToken TAG (childAt 3) ''section'' ('' '' @ quoted ''content'' @ '' '')
         [PlainToken TEXT (layoutAt 3) ''base content'', childSuper,
          PlainToken TEXT (childAt 5) ''child content'']"
proof -
  have b: "isBlock layoutContent ''section''"
    by (simp add: token_examples)
  have others: "\<forall>n\<in>set [layoutTitle] \<union> set [layoutFooter].
      \<not> (isBlock n ''section'' \<and> trim (jsArg n) = trim (jsArg layoutContent))"
    by (simp add: token_examples trim_eval)
  have e: "isBlock childContentSuper ''section''"
    "trim (jsArg childContentSuper) = trim (jsArg layoutContent)"
    "hasChildSuper childContentSuper"
    by (simp_all add: token_examples trim_eval hasChildSuper_def)
  have last: "\<forall>x\<in>set [childSetY].
      \<not> (isBlock x ''section'' \<and> trim (jsArg x) = trim (jsArg childContentSuper))"
    by (simp add: token_examples)
  have plain: "\<forall>n\<in>set ([layoutTitle] @ layoutContent # [layoutFooter]).
      isBlock n ''section'' \<longrightarrow> trim (jsArg n) \<notin> set objectPrototypeMembers"
    by (simp add: token_examples trim_eval objectPrototypeMembers_def)
  have noproto: "\<forall>x\<in>set ([childSetX, childText] @ childContentSuper # [childSetY]).
      isBlock x ''section'' \<longrightarrow> trim (jsArg x) \<noteq> ''__proto__''"
    by (simp add: token_examples trim_eval)
  obtain nodes where
    "mergeSections lexerMembers ([layoutTitle] @ layoutContent # [layoutFooter])
       ([childSetX, childText] @ childContentSuper # [childSetY]) = Inr nodes"
    and "nodes ! (length (extendedSetCalls ([childSetX, childText] @ childContentSuper # [childSetY]))
        + length [layoutTitle]) =
       setChildren childContentSuper (children layoutContent @ children childContentSuper)"
    using mergeSections_super_concat [OF b others e last plain noproto, of lexerMembers]
    by blast
  then show ?thesis
    by (intro exI [of _ nodes]) (simp add: layoutContent_def childContentSuper_def)
qed

text \<open>
  With the marker removed the statement fails: merging the layout's \<open>content\<close> section
  with a child section that starts with \<open>super\<close> keeps the \<open>super\<close> tag as the second
  child of the merged section.
\<close>

theorem mergeSections_super_marker_counterexample:
  "isBlock layoutContent ''section'' \<and> isBlock childContentSuper ''section''
   \<and> trim (jsArg layoutContent) = trim (jsArg childContentSuper)
   \<and> hasChildSuper childContentSuper
   \<and> mergeSections lexerMembers [layoutContent] [childContentSuper] =
       Inr [TagToken TAG (childAt 3) ''section'' ('' '' @ quoted ''content'' @ '' '')
              [PlainToken TEXT (layoutAt 3) ''base content'', childSuper,
               PlainToken TEXT (childAt 5) ''child content'']]
   \<and> [PlainToken TEXT (layoutAt 3) ''base content'', childSuper,
       PlainToken TEXT (childAt 5) ''child content''] \<noteq>
       children layoutContent @ tl (children childContentSuper)"
  by (simp add: token_examples trim_eval merge_eval)







text \<open>
  Claim C4. The table built from the extended list holds under a trimmed identifier the
  last top-level section declared with it, and nothing when there is none: a later
  duplicate overwrites the earlier entry, and reading the table at an identifier that
  was declared gives the last section declared with it. Merging raises no error on
  duplicates: a base section is merged with the last section declared under its
  identifier, whatever was declared before it, and the call returns.
\<close>

theorem extendedSections_last_wins:
  "extendedSections extended A =
     (case filter (\<lambda>n. isBlock n ''section'' \<and> trim (jsArg n) = A) extended of
        [] \<Rightarrow> None | s # ss \<Rightarrow> Some (last (s # ss)))
   \<and> (filter (\<lambda>n. isBlock n ''section'' \<and> trim (jsArg n) = A) extended \<noteq> [] \<longrightarrow>
        lookup members (extendedSections extended) A =
          Stored (last (filter (\<lambda>n. isBlock n ''section'' \<and> trim (jsArg n) = A) extended)))
   \<and> (isBlock b ''section'' \<and> isBlock e ''section'' \<and> trim (jsArg e) = trim (jsArg b)
       \<and> (\<forall>x\<in>set epost. \<not> (isBlock x ''section'' \<and> trim (jsArg x) = trim (jsArg e)))
      \<longrightarrow> mergeSections members [b] (epre @ e # epost) =
            Inr (extendedSetCalls (epre @ e # epost) @
                 [if hasChildSuper e then setChildren e (children b @ children e) else e]))"
proof (intro conjI impI)
  show "extendedSections extended A =
     (case filter (\<lambda>n. isBlock n ''section'' \<and> trim (jsArg n) = A) extended of
        [] \<Rightarrow> None | s # ss \<Rightarrow> Some (last (s # ss)))"
    by (rule extendedSections_last)
next
  assume "filter (\<lambda>n. isBlock n ''section'' \<and> trim (jsArg n) = A) extended \<noteq> []"
  then show "lookup members (extendedSections extended) A =
          Stored (last (filter (\<lambda>n. isBlock n ''section'' \<and> trim (jsArg n) = A) extended))"
    by (cases "filter (\<lambda>n. isBlock n ''section'' \<and> trim (jsArg n) = A) extended")
      (simp_all add: lookup_def extendedSections_last)
next
  assume h: "isBlock b ''section'' \<and> isBlock e ''section'' \<and> trim (jsArg e) = trim (jsArg b)
       \<and> (\<forall>x\<in>set epost. \<not> (isBlock x ''section'' \<and> trim (jsArg x) = trim (jsArg e)))"
  have "extendedSections (epre @ e # epost) (trim (jsArg e)) = Some e"
    by (rule extendedSections_decomp) (use h in blast)+
  then have hit: "extendedSections (epre @ e # epost) (trim (jsArg b)) = Some e"
    using h by simp
  then have "passFinal [b] (epre @ e # epost) =
       [if hasChildSuper e then setChildren e (children b @ children e) else e]"
    using h by (simp add: passFinal_def passNode_def)
  moreover have "\<not> fails members (extendedSections (epre @ e # epost)) [b]"
    using hit by (simp add: nodeFails_def)
  ultimately show "mergeSections members [b] (epre @ e # epost) =
            Inr (extendedSetCalls (epre @ e # epost) @
                 [if hasChildSuper e then setChildren e (children b @ children e) else e])"
    by (simp add: mergeSections_pass)
qed

theorem extendedSections_last_wins_witness:
  "lookup lexerMembers
     (extendedSections ([childContentEarlier, childSetX] @ childContent # [childSetY]))
     (quoted ''content'') = Stored childContent
   \<and> mergeSections lexerMembers [layoutContentPadded]
       ([childContentEarlier, childSetX] @ childContent # [childSetY]) =
       Inr [childSetX, childSetY, childContent]"
proof -
  have dup: "filter (\<lambda>n. isBlock n ''section'' \<and> trim (jsArg n) = quoted ''content'')
      ([childContentEarlier, childSetX] @ childContent # [childSetY]) =
      [childContentEarlier, childContent]"
    by (simp add: token_examples trim_eval)
  have h: "isBlock layoutContentPadded ''section'' \<and> isBlock childContent ''section''
      \<and> trim (jsArg childContent) = trim (jsArg layoutContentPadded)
      \<and> (\<forall>x\<in>set [childSetY].
           \<not> (isBlock x ''section'' \<and> trim (jsArg x) = trim (jsArg childContent)))"
    by (simp add: token_examples trim_eval)
  have sets: "extendedSetCalls ([childContentEarlier, childSetX] @ childContent # [childSetY]) =
      [childSetX, childSetY]"
    by (simp add: token_examples extendedSetCalls_def)
  have ns: "\<not> hasChildSuper childContent"
    by (simp add: token_examples hasChildSuper_def)
  note w = extendedSections_last_wins [of
      "[childContentEarlier, childSetX] @ childContent # [childSetY]" "quoted ''content''"
      lexerMembers layoutContentPadded childContent "[childSetY]"
      "[childContentEarlier, childSetX]"]
  have "filter (\<lambda>n. isBlock n ''section'' \<and> trim (jsArg n) = quoted ''content'')
      ([childContentEarlier, childSetX] @ childContent # [childSetY]) \<noteq> [] \<longrightarrow>
    lookup lexerMembers
     (extendedSections ([childContentEarlier, childSetX] @ childContent # [childSetY]))
     (quoted ''content'') =
    Stored (last (filter (\<lambda>n. isBlock n ''section'' \<and> trim (jsArg n) = quoted ''content'')
      ([childContentEarlier, childSetX] @ childContent # [childSetY])))"
    using w by blast
  then have first: "lookup lexerMembers
     (extendedSections ([childContentEarlier, childSetX] @ childContent # [childSetY]))
     (quoted ''content'') = Stored childContent"
    unfolding dup by simp
  have "mergeSections lexerMembers [layoutContentPadded]
       ([childContentEarlier, childSetX] @ childContent # [childSetY]) =
       Inr (extendedSetCalls ([childContentEarlier, childSetX] @ childContent # [childSetY]) @
            [if hasChildSuper childContent
             then setChildren childContent (children layoutContentPadded @ children childContent)
             else childContent])"
    using w h by blast
  then have "mergeSections lexerMembers [layoutContentPadded]
       ([childContentEarlier, childSetX] @ childContent # [childSetY]) =
       Inr [childSetX, childSetY, childContent]"
    unfolding sets using ns by simp
  with first show ?thesis by blast
qed




section \<open>The tag-argument normalizer\<close>

text \<open>
  Claim C5. \<open>parseAsKeyValuePair\<close> fails with \<open>E_UNALLOWED_EXPRESSION\<close> unless the
  expression is a literal or a sequence. On a literal it returns its raw text and null.
  On a sequence of more than two elements it fails with \<open>E_MAX_ARGUMENTS\<close>, carrying the
  line and column of the sequence and the file name of the parser. Otherwise the first
  element must be a literal (else \<open>E_UNALLOWED_EXPRESSION\<close> at that element), the type
  of the second element must be among the allowed value types when that list is not
  empty (else \<open>E_UNALLOWED_EXPRESSION\<close> at that element), and the result is the raw text
  of the first element with the rendering of the second.
\<close>

theorem parseAsKeyValuePair_cases:
  "(exprType e \<noteq> ''Literal'' \<and> exprType e \<noteq> ''SequenceExpression'' \<longrightarrow>
      fst (parseAsKeyValuePair e parser vs) =
        Inl (EdgeError (exprType e @ '' is not allowed for slot tag.'') ''E_UNALLOWED_EXPRESSION''
               (line (start (exprLoc e))) (column (start (exprLoc e))) (optionsFilename parser)))
   \<and> fst (parseAsKeyValuePair (Literal l r) parser vs) = Inr (r, None)
   \<and> (2 < length es \<longrightarrow>
        fst (parseAsKeyValuePair (SequenceExpression l es) parser vs) =
          Inl (EdgeError ''Maximum of 2 arguments are allowed for slot tag'' ''E_MAX_ARGUMENTS''
                 (line (start l)) (column (start l)) (optionsFilename parser)))
   \<and> (length rest \<le> 1 \<and> exprType first \<noteq> ''Literal'' \<longrightarrow>
        fst (parseAsKeyValuePair (SequenceExpression l (first # rest)) parser vs) =
          Inl (EdgeError (exprType first @ '' is not allowed for slot tag.'')
                 ''E_UNALLOWED_EXPRESSION''
                 (line (start (exprLoc first))) (column (start (exprLoc first)))
                 (optionsFilename parser)))
   \<and> (vs \<noteq> [] \<and> exprType second \<notin> set vs \<longrightarrow>
        fst (parseAsKeyValuePair (SequenceExpression l [Literal l1 r1, second]) parser vs) =
          Inl (EdgeError (exprType second @ '' is not allowed for slot tag.'')
                 ''E_UNALLOWED_EXPRESSION''
                 (line (start (exprLoc second))) (column (start (exprLoc second)))
                 (optionsFilename parser)))
   \<and> (vs = [] \<or> exprType second \<in> set vs \<longrightarrow>
        fst (parseAsKeyValuePair (SequenceExpression l [Literal l1 r1, second]) parser vs) =
          Inr (r1, Some (statementToString parser (Some second))))"
proof (intro conjI impI)
  assume "exprType e \<noteq> ''Literal'' \<and> exprType e \<noteq> ''SequenceExpression''"
  then show "fst (parseAsKeyValuePair e parser vs) =
        Inl (EdgeError (exprType e @ '' is not allowed for slot tag.'') ''E_UNALLOWED_EXPRESSION''
               (line (start (exprLoc e))) (column (start (exprLoc e))) (optionsFilename parser))"
    by (simp add: parseAsKeyValuePair_def)
next
  show "fst (parseAsKeyValuePair (Literal l r) parser vs) = Inr (r, None)"
    by (simp add: parseAsKeyValuePair_def)
next
  assume "2 < length es"
  then show "fst (parseAsKeyValuePair (SequenceExpression l es) parser vs) =
          Inl (EdgeError ''Maximum of 2 arguments are allowed for slot tag'' ''E_MAX_ARGUMENTS''
                 (line (start l)) (column (start l)) (optionsFilename parser))"
    by (simp add: parseAsKeyValuePair_def)
next
  assume "length rest \<le> 1 \<and> exprType first \<noteq> ''Literal''"
  then show "fst (parseAsKeyValuePair (SequenceExpression l (first # rest)) parser vs) =
          Inl (EdgeError (exprType first @ '' is not allowed for slot tag.'')
                 ''E_UNALLOWED_EXPRESSION''
                 (line (start (exprLoc first))) (column (start (exprLoc first)))
                 (optionsFilename parser))"
    by (simp add: parseAsKeyValuePair_def nth_opt_def)
next
  assume "vs \<noteq> [] \<and> exprType second \<notin> set vs"
  then show "fst (parseAsKeyValuePair (SequenceExpression l [Literal l1 r1, second]) parser vs) =
          Inl (EdgeError (exprType second @ '' is not allowed for slot tag.'')
                 ''E_UNALLOWED_EXPRESSION''
                 (line (start (exprLoc second))) (column (start (exprLoc second)))
                 (optionsFilename parser))"
    by (simp add: parseAsKeyValuePair_def nth_opt_def)
next
  assume "vs = [] \<or> exprType second \<in> set vs"
  then show "fst (parseAsKeyValuePair (SequenceExpression l [Literal l1 r1, second]) parser vs) =
          Inr (r1, Some (statementToString parser (Some second)))"
    by (auto simp add: parseAsKeyValuePair_def nth_opt_def)
qed

theorem parseAsKeyValuePair_cases_witness:
  "fst (parseAsKeyValuePair userIdentifier exampleParser []) =
     Inl (EdgeError ''Identifier is not allowed for slot tag.'' ''E_UNALLOWED_EXPRESSION'' 1 9
            ''welcome.edge'')
   \<and> fst (parseAsKeyValuePair (Literal (exprAt 2 3) (quoted ''card'')) exampleParser []) =
       Inr (quoted ''card'', None)
   \<and> fst (parseAsKeyValuePair
            (SequenceExpression (exprAt 2 3) [cardLiteral, userIdentifier, hiLiteral])
            exampleParser []) =
       Inl (EdgeError ''Maximum of 2 arguments are allowed for slot tag'' ''E_MAX_ARGUMENTS'' 2 3
              ''welcome.edge'')
   \<and> fst (parseAsKeyValuePair (SequenceExpression (exprAt 2 3) [userIdentifier, hiLiteral])
            exampleParser []) =
       Inl (EdgeError ''Identifier is not allowed for slot tag.'' ''E_UNALLOWED_EXPRESSION'' 1 9
              ''welcome.edge'')
   \<and> fst (parseAsKeyValuePair (SequenceExpression (exprAt 2 3) [cardLiteral, userIdentifier])
            exampleParser [''Literal'']) =
       Inl (EdgeError ''Identifier is not allowed for slot tag.'' ''E_UNALLOWED_EXPRESSION'' 1 9
              ''welcome.edge'')
   \<and> fst (parseAsKeyValuePair (SequenceExpression (exprAt 2 3) [cardLiteral, userIdentifier])
            exampleParser [''Identifier'']) =
       Inr (quoted ''card'', Some ''user'')"
  using
    parseAsKeyValuePair_cases [where e = userIdentifier and parser = exampleParser
      and vs = "[]" and l = "exprAt 2 3" and r = "quoted ''card''"
      and es = "[cardLiteral, userIdentifier, hiLiteral]" and rest = "[hiLiteral]"
      and first = userIdentifier and second = userIdentifier and ?l1.0 = "exprAt 1 1"
      and ?r1.0 = "quoted ''card''"]
    parseAsKeyValuePair_cases [where e = userIdentifier and parser = exampleParser
      and vs = "[''Literal'']" and l = "exprAt 2 3" and r = "quoted ''card''"
      and es = "[]" and rest = "[]"
      and first = userIdentifier and second = userIdentifier and ?l1.0 = "exprAt 1 1"
      and ?r1.0 = "quoted ''card''"]
    parseAsKeyValuePair_cases [where e = userIdentifier and parser = exampleParser
      and vs = "[''Identifier'']" and l = "exprAt 2 3" and r = "quoted ''card''"
      and es = "[]" and rest = "[]"
      and first = userIdentifier and second = userIdentifier and ?l1.0 = "exprAt 1 1"
      and ?r1.0 = "quoted ''card''"]
  by (simp add: userIdentifier_def cardLiteral_def hiLiteral_def exampleParser_def exprAt_def)

text \<open>
  Claim C6. On an expression that is not a sequence, \<open>parseSequenceExpression\<close> returns
  its rendering and the text \<open>{}\<close>. On a sequence, the rendering of the first element is
  the name; of the other elements, an assignment contributes the name of its left
  identifier with the rendering of its right side, an object literal contributes each
  of its properties with key and value rendered, any other element contributes nothing;
  the pairs are joined by commas and wrapped in braces. With literals rendered by
  their raw text, \<open>('card', title = 'hi')\<close> gives \<open>'card'\<close> and \<open>{ title: 'hi' }\<close>.
\<close>

theorem parseSequenceExpression_result:
  "(exprType e \<noteq> ''SequenceExpression'' \<longrightarrow>
      fst (parseSequenceExpression e parser) = (statementToString parser (Some e), ''{}''))
   \<and> fst (parseSequenceExpression (SequenceExpression l (first # rest)) parser) =
       (statementToString parser (Some first), propsLiteral_spec parser rest)
   \<and> (statementToString parser (Some cardLiteral) = quoted ''card''
       \<and> statementToString parser (Some hiLiteral) = quoted ''hi'' \<longrightarrow>
      fst (parseSequenceExpression cardCall parser) =
        (quoted ''card'', ''{ title: '' @ quoted ''hi'' @ '' }''))"
proof -
  have "fst (parseSequenceExpression cardCall parser) =
          (statementToString parser (Some cardLiteral),
           ''{ title: '' @ statementToString parser (Some hiLiteral) @ '' }'')"
    by (simp add: cardCall_def titleAssignment_def flush_forEach propsLiteral_spec_def)
  then show ?thesis
    by (simp add: parseSequenceExpression_other flush_forEach)
qed

theorem parseSequenceExpression_result_witness:
  "fst (parseSequenceExpression userIdentifier exampleParser) = (''user'', ''{}'')
   \<and> fst (parseSequenceExpression cardCall exampleParser) =
       (quoted ''card'', ''{ title: '' @ quoted ''hi'' @ '' }'')
   \<and> fst (parseSequenceExpression
        (SequenceExpression (exprAt 1 1)
           [cardLiteral, userIdentifier,
            ObjectExpression (exprAt 1 20)
              [(Identifier (exprAt 1 21) ''a'', hiLiteral), (cardLiteral, userIdentifier)],
            titleAssignment])
        exampleParser) =
       (quoted ''card'',
        ''{ a: '' @ quoted ''hi'' @ '', '' @ quoted ''card'' @ '': user, title: '' @ quoted ''hi''
          @ '' }'')"
proof -
  have a: "exprType userIdentifier \<noteq> ''SequenceExpression''"
    by (simp add: userIdentifier_def)
  have b: "statementToString exampleParser (Some cardLiteral) = quoted ''card''
       \<and> statementToString exampleParser (Some hiLiteral) = quoted ''hi''"
    by (simp add: exampleParser_def cardLiteral_def hiLiteral_def)
  show ?thesis
    using a b parseSequenceExpression_result [of userIdentifier exampleParser "exprAt 1 1"
      cardLiteral "[userIdentifier,
            ObjectExpression (exprAt 1 20)
              [(Identifier (exprAt 1 21) ''a'', hiLiteral), (cardLiteral, userIdentifier)],
            titleAssignment]"]
    by (simp add: userIdentifier_def exampleParser_def propsLiteral_spec_def
          titleAssignment_def hiLiteral_def cardLiteral_def)
qed

text \<open>
  Claim C8, as the code has it. \<open>parseAsKeyValuePair\<close> leaves the expression unchanged,
  and so does \<open>parseSequenceExpression\<close> on an expression that is not a sequence. On a
  sequence, \<open>parseSequenceExpression\<close> removes the first element from the element list of
  the expression it was given: after the call the list holds the remaining elements.
\<close>

theorem parse_effect_on_expression:
  "snd (parseAsKeyValuePair e parser vs) = e
   \<and> (exprType e \<noteq> ''SequenceExpression'' \<longrightarrow> snd (parseSequenceExpression e parser) = e)
   \<and> snd (parseSequenceExpression (SequenceExpression l es) parser) = SequenceExpression l (tl es)"
  by (cases es) (simp_all add: parseSequenceExpression_other parseAsKeyValuePair_def)

theorem parse_effect_on_expression_witness:
  "snd (parseAsKeyValuePair cardCall exampleParser []) = cardCall
   \<and> snd (parseSequenceExpression cardLiteral exampleParser) = cardLiteral
   \<and> snd (parseSequenceExpression cardCall exampleParser) =
       SequenceExpression (exprAt 1 1) [titleAssignment]"
proof -
  have "exprType cardLiteral \<noteq> ''SequenceExpression''"
    by (simp add: cardLiteral_def)
  then show ?thesis
    using parse_effect_on_expression [of cardLiteral exampleParser "[]" "exprAt 1 1"
        "[cardLiteral, titleAssignment]"]
      parse_effect_on_expression [of cardCall exampleParser "[]" "exprAt 1 1" "[]"]
    by (simp add: cardCall_def)
qed

text \<open>
  The claim as stated fails on the call \<open>('card', title = 'hi')\<close>: after
  \<open>parseSequenceExpression\<close> the expression has changed, and its element list no longer
  contains its first element.
\<close>

theorem parseSequenceExpression_mutates_counterexample:
  "snd (parseSequenceExpression cardCall exampleParser) \<noteq> cardCall
   \<and> cardLiteral \<notin> set (case snd (parseSequenceExpression cardCall exampleParser) of
                           SequenceExpression l es \<Rightarrow> es | other \<Rightarrow> [])"
  by (simp add: cardCall_def cardLiteral_def titleAssignment_def)

text \<open>
  Claim C10. For a sequence whose elements after the first include no object literal
  and no assignment, \<open>parseSequenceExpression\<close> returns the props literal made of an
  opening brace, two spaces and a closing brace; an expression that is not a sequence
  gets the text \<open>{}\<close>, which is a different text.
\<close>

theorem parseSequenceExpression_empty_props:
  assumes "\<forall>a\<in>set (tl es). exprType a \<noteq> ''ObjectExpression'' \<and> exprType a \<noteq> ''AssignmentExpression''"
    and "exprType e \<noteq> ''SequenceExpression''"
  shows "snd (fst (parseSequenceExpression (SequenceExpression l es) parser)) = ''{  }''
    \<and> snd (fst (parseSequenceExpression e parser')) = ''{}''
    \<and> snd (fst (parseSequenceExpression (SequenceExpression l es) parser))
        \<noteq> snd (fst (parseSequenceExpression e parser'))"
proof -
  have "concat (map (pairsOf parser) (tl es)) = []"
    using assms(1) by (simp add: pairsOf_other)
  then have "propsLiteral_spec parser (tl es) = ''{  }''"
    unfolding propsLiteral_spec_def by (simp only: list.map js_join.simps) simp
  then have "snd (fst (parseSequenceExpression (SequenceExpression l es) parser)) = ''{  }''"
    by (cases es) (simp_all add: flush_forEach)
  then show ?thesis using assms(2) by (simp add: parseSequenceExpression_other)
qed

theorem parseSequenceExpression_empty_props_witness:
  "snd (fst (parseSequenceExpression
               (SequenceExpression (exprAt 1 1) [cardLiteral, userIdentifier, hiLiteral])
               exampleParser)) = ''{  }''
   \<and> snd (fst (parseSequenceExpression cardLiteral exampleParser)) = ''{}''"
proof -
  have a: "\<forall>a\<in>set (tl [cardLiteral, userIdentifier, hiLiteral]).
             exprType a \<noteq> ''ObjectExpression'' \<and> exprType a \<noteq> ''AssignmentExpression''"
    by (simp add: userIdentifier_def hiLiteral_def)
  have b: "exprType cardLiteral \<noteq> ''SequenceExpression''"
    by (simp add: cardLiteral_def)
  show ?thesis
    using parseSequenceExpression_empty_props [OF a b, of "exprAt 1 1" exampleParser exampleParser]
    by simp
qed

section \<open>The path resolver\<close>

text \<open>
  Claim C7. \<open>extractDiskAndTemplateName\<close> splits the reference on the first \<open>::\<close> (the
  disk is \<open>default\<close> when there is none), replaces only the first dot of the dotted
  template path by the platform's path separator and appends the extension, \<open>edge\<close>
  by default: on every reference and platform it returns what the specification's
  resolver returns, which is written with splits on first occurrences only. In
  particular \<open>users::list\<close> gives \<open>(users, list.edge)\<close> and \<open>list\<close> gives
  \<open>(default, list.edge)\<close>.
\<close>

theorem extractDiskAndTemplateName_refines_spec:
  "extractDiskAndTemplateName p reference = extractDiskAndTemplateName_spec p reference
   \<and> extractDiskAndTemplateName p ''users::list'' = (''users'', ''list.edge'')
   \<and> extractDiskAndTemplateName p ''list'' = (''default'', ''list.edge'')"
proof -
  have "extractDiskAndTemplateName_spec p ''users::list'' = (''users'', ''list.edge'')"
    by (simp add: extractDiskAndTemplateName_spec_def)
  moreover have "extractDiskAndTemplateName_spec p ''list'' = (''default'', ''list.edge'')"
    by (simp add: extractDiskAndTemplateName_spec_def)
  ultimately show ?thesis by (simp add: extract_refines)
qed

theorem extractDiskAndTemplateName_refines_spec_witness:
  "extractDiskAndTemplateName Posix ''admin::users.list.item'' = (''admin'', ''users/list.item.edge'')
   \<and> extractDiskAndTemplateName Win32 ''users.list.edge'' = (''default'', ''users'' @ [CHR 0x5C] @ ''list.edge'')"
  using extractDiskAndTemplateName_refines_spec [of Posix "''admin::users.list.item''"]
    extractDiskAndTemplateName_refines_spec [of Win32 "''users.list.edge''"]
  by (simp add: extractDiskAndTemplateName_spec_def)

end
